theory Spec2Isabelle
  imports Main "HOL-Library.AList"
begin

section \<open>JavaScript values used by the script\<close>

text \<open>
  The script computes slide indices with \<^verbatim>\<open>%\<close>. On the integers that occur here
  JavaScript's remainder truncates towards zero (the result has the sign of the
  dividend), and a zero divisor gives \<^verbatim>\<open>NaN\<close>. Every comparison with \<^verbatim>\<open>NaN\<close> is false.
\<close>

datatype jsnum = Num int | NaN

definition js_rem :: "int \<Rightarrow> int \<Rightarrow> jsnum" where
  "js_rem a b = (if b = 0 then NaN else Num (sgn a * (\<bar>a\<bar> mod \<bar>b\<bar>)))"

text \<open>
  A method either returns or throws. Statements that ran before the throw keep their
  effect, so both outcomes carry the state that was reached.
\<close>

datatype js_error = TypeError

datatype 'a outcome = Done 'a | Thrown js_error 'a

fun andThen :: "'a outcome \<Rightarrow> ('a \<Rightarrow> 'a outcome) \<Rightarrow> 'a outcome" where
  "andThen (Done s) f = f s"
| "andThen (Thrown e s) f = Thrown e s"

fun repeat :: "nat \<Rightarrow> ('a \<Rightarrow> 'a outcome) \<Rightarrow> 'a \<Rightarrow> 'a outcome" where
  "repeat 0 f s = Done s"
| "repeat (Suc n) f s = andThen (f s) (repeat n f)"

fun state_of :: "'a outcome \<Rightarrow> 'a" where
  "state_of (Done s) = s"
| "state_of (Thrown e s) = s"

section \<open>Timer service\<close>

text \<open>
  \<^verbatim>\<open>setInterval\<close> returns a fresh handle, a positive integer; \<^verbatim>\<open>clearInterval\<close>
  removes the timer with that handle. \<open>active\<close> lists the repeating timers that are
  scheduled, \<open>pending\<close> counts the one-shot \<^verbatim>\<open>setTimeout\<close> callbacks that will call
  \<^verbatim>\<open>startAutoplay\<close> and have not fired yet.
\<close>

record timer_service =
  active :: "nat list"
  issued :: nat
  pending :: nat

definition setInterval :: "timer_service \<Rightarrow> nat \<times> timer_service" where
  "setInterval t = (Suc (issued t), t\<lparr>active := active t @ [Suc (issued t)], issued := Suc (issued t)\<rparr>)"

definition clearInterval :: "nat \<Rightarrow> timer_service \<Rightarrow> timer_service" where
  "clearInterval h t = t\<lparr>active := removeAll h (active t)\<rparr>"

definition setTimeout :: "timer_service \<Rightarrow> timer_service" where
  "setTimeout t = t\<lparr>pending := Suc (pending t)\<rparr>"

section \<open>TestimonialSlider\<close>

text \<open>
  The fields of the class. \<open>testimonials\<close> and \<open>dots\<close> are the two node lists; of each
  node the model keeps whether its class list holds \<^verbatim>\<open>active\<close>. \<open>interval\<close> is
  \<^verbatim>\<open>null\<close> (\<open>None\<close>) or a timer handle. \<open>timers\<close> is the timer service and \<open>wired\<close>
  tells whether \<^verbatim>\<open>setupEventListeners\<close> has run.
\<close>

record slider =
  currentIndex :: int
  interval :: "nat option"
  testimonials :: "bool list"
  dots :: "bool list"
  timers :: timer_service
  wired :: bool

definition constructor :: slider where
  "constructor = \<lparr>currentIndex = 0, interval = None, testimonials = [], dots = [],
     timers = \<lparr>active = [], issued = 0, pending = 0\<rparr>, wired = False\<rparr>"

text \<open>
  \<^verbatim>\<open>show(index)\<close>. With \<^verbatim>\<open>NaN\<close> neither \<^verbatim>\<open>index < 0\<close> nor
  \<^verbatim>\<open>index >= length\<close> holds, the two \<^verbatim>\<open>forEach\<close> loops run, and
  \<^verbatim>\<open>this.testimonials[NaN]\<close> is \<^verbatim>\<open>undefined\<close>, whose \<^verbatim>\<open>classList\<close> throws.
\<close>

definition show_slide :: "jsnum \<Rightarrow> slider \<Rightarrow> slider outcome" where
  "show_slide index s =
     (case index of
        Num i \<Rightarrow>
          if i < 0 \<or> i \<ge> int (length (testimonials s)) then Done s
          else
            let hidden = map (\<lambda>_. False) (testimonials s);
                dimmed = map (\<lambda>_. False) (dots s)
            in Done (s\<lparr>testimonials := hidden[nat i := True],
                       dots := (if nat i < length dimmed then dimmed[nat i := True] else dimmed),
                       currentIndex := i\<rparr>)
      | NaN \<Rightarrow>
          Thrown TypeError (s\<lparr>testimonials := map (\<lambda>_. False) (testimonials s),
                              dots := map (\<lambda>_. False) (dots s)\<rparr>))"

definition next_slide :: "slider \<Rightarrow> slider outcome" where
  "next_slide s = show_slide (js_rem (currentIndex s + 1) (int (length (testimonials s)))) s"

definition prev_slide :: "slider \<Rightarrow> slider outcome" where
  "prev_slide s =
     show_slide (js_rem (currentIndex s - 1 + int (length (testimonials s)))
                        (int (length (testimonials s)))) s"

text \<open>\<^verbatim>\<open>if (this.interval)\<close>: \<^verbatim>\<open>null\<close> and the number 0 are falsy.\<close>

definition stopAutoplay :: "slider \<Rightarrow> slider" where
  "stopAutoplay s =
     (case interval s of
        None \<Rightarrow> s
      | Some h \<Rightarrow> if h = 0 then s
                  else s\<lparr>timers := clearInterval h (timers s), interval := None\<rparr>)"

definition startAutoplay :: "slider \<Rightarrow> slider" where
  "startAutoplay s =
     (let s1 = stopAutoplay s;
          (h, t) = setInterval (timers s1)
      in s1\<lparr>timers := t, interval := Some h\<rparr>)"

text \<open>
  \<^verbatim>\<open>init\<close> queries the document (the two arguments are the results of the queries
  for \<^verbatim>\<open>.testimonial-item\<close> and \<^verbatim>\<open>.dot\<close>) and returns before anything is
  wired when there is no testimonial.
\<close>

definition init :: "bool list \<Rightarrow> bool list \<Rightarrow> slider \<Rightarrow> slider outcome" where
  "init items ds s =
     (let s1 = s\<lparr>testimonials := items, dots := ds\<rparr>
      in if length (testimonials s1) = 0 then Done s1
         else andThen (show_slide (Num 0) (s1\<lparr>wired := True\<rparr>))
                (\<lambda>s2. Done (s2\<lparr>timers := setTimeout (timers s2)\<rparr>)))"

text \<open>
  The events the listeners of \<^verbatim>\<open>setupEventListeners\<close> react to, and the two kinds
  of timer callback. An event reaches a handler only once the listeners are registered; an
  interval callback runs only for a scheduled timer, a one-shot callback only while one is
  pending, and only a dot of the node list can be clicked.
\<close>

datatype event =
  NextClick | PrevClick | DotClick nat | MouseEnter | MouseLeave
  | TabVisible | TabHidden | IntervalTick nat | TimeoutFired

definition resumeLater :: "slider \<Rightarrow> slider outcome" where
  "resumeLater s = Done (s\<lparr>timers := setTimeout (timers s)\<rparr>)"

fun handler :: "event \<Rightarrow> slider \<Rightarrow> slider outcome" where
  "handler NextClick s = andThen (next_slide (stopAutoplay s)) resumeLater"
| "handler PrevClick s = andThen (prev_slide (stopAutoplay s)) resumeLater"
| "handler (DotClick i) s = andThen (show_slide (Num (int i)) (stopAutoplay s)) resumeLater"
| "handler MouseEnter s = Done (stopAutoplay s)"
| "handler MouseLeave s = Done (startAutoplay s)"
| "handler TabVisible s = andThen (next_slide s) (\<lambda>s1. Done (startAutoplay s1))"
| "handler TabHidden s = Done (stopAutoplay s)"
| "handler (IntervalTick h) s = next_slide s"
| "handler TimeoutFired s = Done (startAutoplay (s\<lparr>timers := (timers s)\<lparr>pending := pending (timers s) - 1\<rparr>\<rparr>))"

definition dispatch :: "event \<Rightarrow> slider \<Rightarrow> slider outcome" where
  "dispatch ev s =
     (case ev of
        IntervalTick h \<Rightarrow> if h \<in> set (active (timers s)) then handler ev s else Done s
      | TimeoutFired \<Rightarrow> if 0 < pending (timers s) then handler ev s else Done s
      | DotClick i \<Rightarrow> if wired s \<and> i < length (dots s) then handler ev s else Done s
      | _ \<Rightarrow> if wired s then handler ev s else Done s)"

text \<open>
  The states of a page: what \<^verbatim>\<open>init\<close> leaves of a new slider, and what an event
  makes of such a state. A handler that throws leaves the state it had reached.
\<close>

inductive reachable :: "slider \<Rightarrow> bool" where
  initial: "reachable (state_of (init items ds constructor))"
| step: "reachable s \<Longrightarrow> reachable (state_of (dispatch ev s))"

section \<open>Strings and the email pattern\<close>

text \<open>
  Strings are lists of characters; the model covers text of code units below 256, where
  a character is one UTF-16 code unit and \<^verbatim>\<open>length\<close> counts characters.
  \<^verbatim>\<open>trim()\<close> removes white space and line terminators at both ends: in this range
  the tab, the line feed, the vertical tab, the form feed, the carriage return, the space
  and the no-break space.
\<close>

definition js_space :: "char \<Rightarrow> bool" where
  "js_space c =
     (c \<in> set [CHR 0x09, CHR 0x0A, CHR 0x0B, CHR 0x0C, CHR 0x0D, CHR '' '', CHR 0xA0])"

definition trim :: "string \<Rightarrow> string" where
  "trim s = rev (dropWhile js_space (rev (dropWhile js_space s)))"

text \<open>
  The part of the regular expression language the script uses: a character class, a
  sequence, \<^verbatim>\<open>r?\<close>, \<^verbatim>\<open>r{0,n}\<close> and \<^verbatim>\<open>r*\<close> (\<^verbatim>\<open>r+\<close> is \<^verbatim>\<open>rr*\<close>).
  \<open>run r s\<close> lists what is left of \<open>s\<close> after each way of matching \<open>r\<close> at its start.
  An iteration of \<^verbatim>\<open>r*\<close> that consumes nothing adds nothing, so \<open>length s\<close> iterations
  are enough. \<^verbatim>\<open>test\<close> on a pattern anchored with \<^verbatim>\<open>^\<close> and \<^verbatim>\<open>$\<close> asks for a match
  that leaves nothing.
\<close>

datatype rx = Cls "char list" | Seq rx rx | Opt rx | Upto nat rx | Star rx

fun iterate :: "nat \<Rightarrow> (string \<Rightarrow> string list) \<Rightarrow> string \<Rightarrow> string list" where
  "iterate 0 f s = [s]"
| "iterate (Suc n) f s = s # concat (map (iterate n f) (f s))"

primrec run :: "rx \<Rightarrow> string \<Rightarrow> string list" where
  "run (Cls cs) s = (case s of [] \<Rightarrow> [] | c # t \<Rightarrow> if c \<in> set cs then [t] else [])"
| "run (Seq a b) s = concat (map (run b) (run a s))"
| "run (Opt a) s = s # run a s"
| "run (Upto n a) s = iterate n (run a) s"
| "run (Star a) s = iterate (length s) (run a) s"

definition test :: "rx \<Rightarrow> string \<Rightarrow> bool" where
  "test r s = ([] \<in> set (run r s))"

definition alnum :: "char list" where
  "alnum = ''abcdefghijklmnopqrstuvwxyzABCDEFGHIJKLMNOPQRSTUVWXYZ0123456789''"

definition localChars :: "char list" where
  "localChars = alnum @ ''.!#$%&'' @ [CHR 0x27] @ ''*+/=?^_`{|}~-''"

text \<open>One domain label: \<^verbatim>\<open>[a-zA-Z0-9](?:[a-zA-Z0-9-]{0,61}[a-zA-Z0-9])?\<close>.\<close>

definition domainLabel :: rx where
  "domainLabel = Seq (Cls alnum) (Opt (Seq (Upto 61 (Cls (alnum @ ''-''))) (Cls alnum)))"

definition emailRegex :: rx where
  "emailRegex =
     Seq (Seq (Cls localChars) (Star (Cls localChars)))
       (Seq (Cls ''@'')
         (Seq domainLabel
           (Seq (Seq (Cls ''.'') domainLabel) (Star (Seq (Cls ''.'') domainLabel)))))"

definition digitRegex :: rx where
  "digitRegex = Cls ''0123456789''"

text \<open>\<^verbatim>\<open>/[0-9]/.test(value)\<close> is not anchored: a digit anywhere in the value matches.\<close>

fun test_anywhere :: "rx \<Rightarrow> string \<Rightarrow> bool" where
  "test_anywhere r [] = (run r [] \<noteq> [])"
| "test_anywhere r (c # cs) = (run r (c # cs) \<noteq> [] \<or> test_anywhere r cs)"

text \<open>
  \<^verbatim>\<open>Utils.sanitizeHTML\<close> assigns the string to \<^verbatim>\<open>textContent\<close> and reads
  \<^verbatim>\<open>innerHTML\<close> back: the serialisation of a text node replaces the ampersand and the
  two angle brackets by their entities.
\<close>

fun sanitizeHTML :: "string \<Rightarrow> string" where
  "sanitizeHTML [] = []"
| "sanitizeHTML (c # cs) =
     (if c = CHR ''&'' then ''&amp;''
      else if c = CHR ''<'' then ''&lt;''
      else if c = CHR ''>'' then ''&gt;''
      else [c]) @ sanitizeHTML cs"

section \<open>Contact form: fields and validation\<close>

text \<open>
  A form control as the script sees it: the element kind, its \<^verbatim>\<open>type\<close>, \<^verbatim>\<open>name\<close>
  and \<^verbatim>\<open>value\<close>, the value a form reset restores, the \<^verbatim>\<open>required\<close> attribute, the
  border colour, and the text of the \<^verbatim>\<open>.field-error\<close> element of the control's parent
  (\<open>None\<close> when there is none). Each control is taken to sit in a parent of its own, so
  that an error element belongs to one control. The controls are enabled and hold text
  (no checkbox, radio button or file input), so each named control contributes its value
  to the form data.
\<close>

datatype element = Input | Select | Textarea

record field =
  el_tag :: element
  el_type :: string
  el_name :: string
  el_value :: string
  el_default :: string
  required :: bool
  borderColor :: string
  fieldError :: "string option"

definition showFieldError :: "field \<Rightarrow> string \<Rightarrow> field" where
  "showFieldError f message = f\<lparr>borderColor := ''#ef4444'', fieldError := Some message\<rparr>"

definition clearFieldError :: "field \<Rightarrow> field" where
  "clearFieldError f = f\<lparr>borderColor := ''rgba(255, 255, 255, 0.2)'', fieldError := None\<rparr>"

text \<open>
  \<^verbatim>\<open>validateField\<close>: the checks run one after the other on the two local variables
  \<^verbatim>\<open>isValid\<close> and \<^verbatim>\<open>errorMessage\<close>; each \<^verbatim>\<open>if\<close> that fires assigns both. The
  result is the returned \<^verbatim>\<open>isValid\<close> and the field with its error display updated.
\<close>

definition validateField :: "field \<Rightarrow> bool \<times> field" where
  "validateField f =
     (let v = trim (el_value f);
          f0 = clearFieldError f;
          (isValid, errorMessage) = (True, '''');
          (isValid, errorMessage) =
            (if required f \<and> v = [] then (False, ''This field is required'')
             else (isValid, errorMessage));
          (isValid, errorMessage) =
            (if el_type f = ''email'' \<and> v \<noteq> [] then
               (if \<not> test emailRegex v then (False, ''Please enter a valid email address'')
                else (isValid, errorMessage))
             else (isValid, errorMessage));
          (isValid, errorMessage) =
            (if el_type f = ''text'' \<and> el_name f = ''name'' \<and> v \<noteq> [] then
               (let (isValid, errorMessage) =
                      (if length v < 2 then (False, ''Name must be at least 2 characters'')
                       else (isValid, errorMessage))
                in if test_anywhere digitRegex v
                   then (False, ''Name should not contain numbers'')
                   else (isValid, errorMessage))
             else (isValid, errorMessage))
      in (isValid, if \<not> isValid then showFieldError f0 errorMessage else f0))"

text \<open>
  \<^verbatim>\<open>validateForm\<close>: the loop over the result of \<^verbatim>\<open>querySelectorAll('[required]')\<close>,
  written over all controls in document order with the selector as a test. The second
  argument is the loop's \<^verbatim>\<open>isValid\<close>.
\<close>

fun validateAll :: "field list \<Rightarrow> bool \<Rightarrow> bool \<times> field list" where
  "validateAll [] isValid = (isValid, [])"
| "validateAll (f # fs) isValid =
     (if required f then
        (let (ok, f') = validateField f;
             (isValid', fs') = validateAll fs (if \<not> ok then False else isValid)
         in (isValid', f' # fs'))
      else
        (let (isValid', fs') = validateAll fs isValid in (isValid', f # fs')))"

definition validateForm :: "field list \<Rightarrow> bool \<times> field list" where
  "validateForm fs = validateAll fs True"

section \<open>Contact form: submission\<close>

datatype severity = Info | Success | Error

record button =
  textContent :: string
  spinner :: bool
  disabled :: bool
  opacity :: string

text \<open>
  The page as far as the form is concerned: the controls of the form in document order,
  the submit button (\<open>None\<close> when the query for it finds nothing), the notification on
  display (\<^verbatim>\<open>showNotification\<close> removes any other before it adds one), the bodies of the
  requests sent to the endpoint so far, \<^verbatim>\<open>formSubmitTracker\<close>, and for every request
  that has not been answered yet the \<^verbatim>\<open>originalText\<close> its callbacks hold.
\<close>

record page =
  controls :: "field list"
  submitButton :: "button option"
  notification :: "(string \<times> severity) option"
  requests :: "(string \<times> string) list list"
  lastSubmit :: int
  minDelay :: int
  inflight :: "string list"

definition FORM_SUBMIT_COOLDOWN :: int where
  "FORM_SUBMIT_COOLDOWN = 5000"

definition showNotification :: "string \<Rightarrow> severity \<Rightarrow> page \<Rightarrow> page" where
  "showNotification message type p = p\<lparr>notification := Some (message, type)\<rparr>"

definition reset :: "page \<Rightarrow> page" where
  "reset p = p\<lparr>controls := map (\<lambda>f. f\<lparr>el_value := el_default f\<rparr>) (controls p)\<rparr>"

definition hp_field :: field where
  "hp_field = \<lparr>el_tag = Input, el_type = ''text'', el_name = ''website'', el_value = '''',
     el_default = '''', required = False, borderColor = '''', fieldError = None\<rparr>"

definition addHoneypotField :: "page \<Rightarrow> page" where
  "addHoneypotField p = p\<lparr>controls := controls p @ [hp_field]\<rparr>"

text \<open>
  \<^verbatim>\<open>this.querySelector('input[name="website"]')\<close>: the first \<^verbatim>\<open>input\<close> element of
  that name in document order, or \<^verbatim>\<open>null\<close>.
\<close>

definition honeypot :: "page \<Rightarrow> field option" where
  "honeypot p = find (\<lambda>f. el_tag f = Input \<and> el_name f = ''website'') (controls p)"

text \<open>
  \<^verbatim>\<open>new FormData(this)\<close> has one entry for each control with a name, in document order;
  the loop copies every entry whose key is not \<^verbatim>\<open>website\<close> into the object, trimmed
  and sanitised. An assignment to a key the object has already keeps the key's place.
\<close>

definition entries :: "field list \<Rightarrow> (string \<times> string) list" where
  "entries fs = map (\<lambda>f. (el_name f, el_value f)) (filter (\<lambda>f. el_name f \<noteq> []) fs)"

fun collect :: "(string \<times> string) list \<Rightarrow> (string \<times> string) list \<Rightarrow> (string \<times> string) list" where
  "collect [] formObject = formObject"
| "collect ((key, v) # es) formObject =
     collect es (if key \<noteq> ''website''
                 then AList.update key (sanitizeHTML (trim v)) formObject
                 else formObject)"

text \<open>
  \<^verbatim>\<open>submitContactForm\<close> up to the call of \<^verbatim>\<open>fetch\<close>. Reading \<^verbatim>\<open>textContent\<close>
  of a missing submit button throws, after \<^verbatim>\<open>lastSubmit\<close> has been assigned.
\<close>

definition submitContactForm :: "(string \<times> string) list \<Rightarrow> int \<Rightarrow> page \<Rightarrow> page outcome" where
  "submitContactForm formData now p =
     (if now - lastSubmit p < minDelay p then
        Done (showNotification ''Please wait before submitting again'' Error p)
      else
        let p1 = p\<lparr>lastSubmit := now\<rparr>
        in case submitButton p1 of
             None \<Rightarrow> Thrown TypeError p1
           | Some b \<Rightarrow>
               Done (p1\<lparr>submitButton :=
                           Some (b\<lparr>textContent := '' Sending...'', spinner := True,
                                    disabled := True, opacity := ''0.7''\<rparr>),
                         requests := requests p1 @ [formData],
                         inflight := inflight p1 @ [textContent b]\<rparr>))"

text \<open>The listener of the form's \<^verbatim>\<open>submit\<close> event; \<open>now\<close> is what \<^verbatim>\<open>Date.now()\<close> returns.\<close>

definition submit_listener :: "int \<Rightarrow> page \<Rightarrow> page outcome" where
  "submit_listener now p =
     (if (case honeypot p of None \<Rightarrow> False | Some h \<Rightarrow> el_value h \<noteq> []) then
        Done (reset (showNotification ''Message sent successfully!'' Success p))
      else
        let (ok, fs) = validateForm (controls p);
            p1 = p\<lparr>controls := fs\<rparr>
        in if ok then submitContactForm (collect (entries (controls p1)) []) now p1
           else Done p1)"

text \<open>
  The three ways a request ends, and the callbacks of the promise: \<^verbatim>\<open>then\<close> (which
  throws on a status that is not ok), \<^verbatim>\<open>catch\<close> and \<^verbatim>\<open>finally\<close>.
\<close>

datatype response = HttpOk | HttpFailure | NetworkFailure

definition finally_cleanup :: "string \<Rightarrow> page \<Rightarrow> page" where
  "finally_cleanup originalText p =
     p\<lparr>submitButton :=
         map_option (\<lambda>b. b\<lparr>textContent := originalText, spinner := False,
                             disabled := False, opacity := ''1''\<rparr>) (submitButton p),
       controls := map (\<lambda>f. f\<lparr>fieldError := None\<rparr>) (controls p)\<rparr>"

definition resolve :: "response \<Rightarrow> string \<Rightarrow> page \<Rightarrow> page" where
  "resolve r originalText p =
     finally_cleanup originalText
       (case r of
          HttpOk \<Rightarrow>
            showNotification (''Thank you for your message! We'' @ [CHR 0x27]
              @ ''ll get back to you soon.'') Success (reset p)
        | _ \<Rightarrow>
            showNotification
              ''Sorry, there was an error sending your message. Please try again.'' Error p)"

text \<open>The answer to the oldest request that is still open arrives.\<close>

definition respond :: "response \<Rightarrow> page \<Rightarrow> page" where
  "respond r p =
     (case inflight p of
        [] \<Rightarrow> p
      | originalText # rest \<Rightarrow> resolve r originalText (p\<lparr>inflight := rest\<rparr>))"

section \<open>An invariant and some concrete states\<close>

text \<open>
  The timers the slider owns: either \<open>interval\<close> is \<^verbatim>\<open>null\<close> and no repeating timer is
  scheduled, or it holds the handle of the only scheduled one, a handle the timer service
  has issued.
\<close>

definition one_timer :: "slider \<Rightarrow> bool" where
  "one_timer s =
     (case interval s of
        None \<Rightarrow> active (timers s) = []
      | Some h \<Rightarrow> active (timers s) = [h] \<and> 0 < h \<and> h \<le> issued (timers s))"

text \<open>
  A name field whose trimmed value is one digit: shorter than 2 and with a digit in it.
  The second check assigns \<^verbatim>\<open>errorMessage\<close> after the first, and its message is the one
  displayed.
\<close>

definition short_numeric_name :: field where
  "short_numeric_name = \<lparr>el_tag = Input, el_type = ''text'', el_name = ''name'',
     el_value = '' 7 '', el_default = '''', required = True, borderColor = '''',
     fieldError = None\<rparr>"

text \<open>
  An email field that is not required and holds a value the pattern rejects:
  \<^verbatim>\<open>validateField\<close> refuses it, \<^verbatim>\<open>validateForm\<close> never looks at it.
\<close>

definition optional_email :: field where
  "optional_email = \<lparr>el_tag = Input, el_type = ''email'', el_name = ''email'',
     el_value = ''not-an-email'', el_default = '''', required = False, borderColor = '''',
     fieldError = None\<rparr>"

text \<open>
  A page to run the listener on: a name, an email address and a message, the honeypot
  appended by \<^verbatim>\<open>addHoneypotField\<close>, and a submit button.
\<close>

definition contact_page :: page where
  "contact_page = addHoneypotField
     \<lparr>controls =
        [\<lparr>el_tag = Input, el_type = ''text'', el_name = ''name'', el_value = ''Ann'',
          el_default = '''', required = True, borderColor = '''', fieldError = None\<rparr>,
         \<lparr>el_tag = Input, el_type = ''email'', el_name = ''email'', el_value = ''ann@example.com'',
          el_default = '''', required = True, borderColor = '''', fieldError = None\<rparr>,
         \<lparr>el_tag = Textarea, el_type = ''textarea'', el_name = ''message'', el_value = ''a <b> c'',
          el_default = '''', required = False, borderColor = '''',
          fieldError = Some ''This field is required''\<rparr>],
      submitButton = Some \<lparr>textContent = ''Send Message'', spinner = False, disabled = False,
                            opacity = ''1''\<rparr>,
      notification = None, requests = [], lastSubmit = 0, minDelay = FORM_SUBMIT_COOLDOWN,
      inflight = []\<rparr>"

text \<open>
  A form whose author has an input of their own named \<^verbatim>\<open>website\<close>, left empty by the
  visitor, before the appended honeypot, which a bot has filled.
\<close>

definition author_website_page :: page where
  "author_website_page =
     \<lparr>controls =
        [\<lparr>el_tag = Input, el_type = ''url'', el_name = ''website'', el_value = '''',
          el_default = '''', required = False, borderColor = '''', fieldError = None\<rparr>,
         \<lparr>el_tag = Textarea, el_type = ''textarea'', el_name = ''message'', el_value = ''hi'',
          el_default = '''', required = True, borderColor = '''', fieldError = None\<rparr>,
         hp_field\<lparr>el_value := ''http://spam.example''\<rparr>],
      submitButton = Some \<lparr>textContent = ''Send'', spinner = False, disabled = False,
                            opacity = ''1''\<rparr>,
      notification = None, requests = [], lastSubmit = 0, minDelay = FORM_SUBMIT_COOLDOWN,
      inflight = []\<rparr>"

text \<open>
  The same form as \<^verbatim>\<open>initializeContactForm\<close> leaves it, with the author's input filled
  by the visitor and the honeypot empty.
\<close>

definition author_filled_page :: page where
  "author_filled_page = addHoneypotField
     \<lparr>controls =
        [\<lparr>el_tag = Input, el_type = ''url'', el_name = ''website'', el_value = ''x.org'',
          el_default = '''', required = False, borderColor = '''', fieldError = None\<rparr>,
         \<lparr>el_tag = Textarea, el_type = ''textarea'', el_name = ''message'', el_value = ''hi'',
          el_default = '''', required = True, borderColor = '''', fieldError = None\<rparr>],
      submitButton = Some \<lparr>textContent = ''Send'', spinner = False, disabled = False,
                            opacity = ''1''\<rparr>,
      notification = None, requests = [], lastSubmit = 0, minDelay = FORM_SUBMIT_COOLDOWN,
      inflight = []\<rparr>"

text \<open>
  A form whose author has a \<^verbatim>\<open>textarea\<close> named \<^verbatim>\<open>website\<close>, filled by the visitor;
  the appended honeypot is empty.
\<close>

definition textarea_website_page :: page where
  "textarea_website_page = addHoneypotField
     \<lparr>controls =
        [\<lparr>el_tag = Textarea, el_type = ''textarea'', el_name = ''website'', el_value = ''x.org'',
          el_default = '''', required = False, borderColor = '''', fieldError = None\<rparr>,
         \<lparr>el_tag = Textarea, el_type = ''textarea'', el_name = ''message'', el_value = ''hi'',
          el_default = '''', required = True, borderColor = '''', fieldError = None\<rparr>],
      submitButton = Some \<lparr>textContent = ''Send'', spinner = False, disabled = False,
                            opacity = ''1''\<rparr>,
      notification = None, requests = [], lastSubmit = 0, minDelay = FORM_SUBMIT_COOLDOWN,
      inflight = []\<rparr>"

section \<open>Cyclic navigation\<close>

lemma js_rem_nonneg: "0 \<le> a \<Longrightarrow> 0 < b \<Longrightarrow> js_rem a b = Num (a mod b)"
  by (cases "a = 0") (simp_all add: js_rem_def sgn_if)

lemma next_slide_step:
  assumes "0 \<le> currentIndex s" "currentIndex s < int (length (testimonials s))"
  shows "\<exists>s'. next_slide s = Done s'
           \<and> currentIndex s' = (currentIndex s + 1) mod int (length (testimonials s))
           \<and> length (testimonials s') = length (testimonials s)"
proof -
  let ?n = "int (length (testimonials s))"
  let ?j = "(currentIndex s + 1) mod ?n"
  have n: "0 < ?n" using assms by linarith
  have r: "js_rem (currentIndex s + 1) ?n = Num ?j"
    using assms n by (simp add: js_rem_nonneg)
  have b: "0 \<le> ?j" "?j < ?n" using n by simp_all
  show ?thesis
    using b unfolding next_slide_def r show_slide_def by (simp add: Let_def)
qed

lemma prev_slide_step:
  assumes "0 \<le> currentIndex s" "currentIndex s < int (length (testimonials s))"
  shows "\<exists>s'. prev_slide s = Done s'
           \<and> currentIndex s' = (currentIndex s - 1) mod int (length (testimonials s))
           \<and> length (testimonials s') = length (testimonials s)"
proof -
  let ?n = "int (length (testimonials s))"
  let ?j = "(currentIndex s - 1) mod ?n"
  have n: "0 < ?n" using assms by linarith
  have nn: "0 \<le> currentIndex s - 1 + ?n" using assms by linarith
  have r: "js_rem (currentIndex s - 1 + ?n) ?n = Num ?j"
    using nn n by (simp add: js_rem_nonneg)
  have b: "0 \<le> ?j" "?j < ?n" using n by simp_all
  show ?thesis
    using b unfolding prev_slide_def r show_slide_def by (simp add: Let_def)
qed

lemma repeat_next_slide:
  assumes "0 \<le> currentIndex s" "currentIndex s < int (length (testimonials s))"
  shows "\<exists>s'. repeat k next_slide s = Done s'
           \<and> currentIndex s' = (currentIndex s + int k) mod int (length (testimonials s))
           \<and> length (testimonials s') = length (testimonials s)"
  using assms
proof (induction k arbitrary: s)
  case 0
  then show ?case by simp
next
  case (Suc k)
  let ?n = "int (length (testimonials s))"
  from next_slide_step [OF Suc.prems] obtain s1 where
    s1: "next_slide s = Done s1" "currentIndex s1 = (currentIndex s + 1) mod ?n"
      "length (testimonials s1) = length (testimonials s)"
    by blast
  have n: "0 < ?n" using Suc.prems by linarith
  have b: "0 \<le> currentIndex s1" "currentIndex s1 < int (length (testimonials s1))"
    using s1 n by simp_all
  from Suc.IH [OF b] obtain s' where
    s': "repeat k next_slide s1 = Done s'"
      "currentIndex s' = (currentIndex s1 + int k) mod int (length (testimonials s1))"
      "length (testimonials s') = length (testimonials s1)"
    by blast
  have "(currentIndex s1 + int k) mod ?n = (currentIndex s + 1 + int k) mod ?n"
    unfolding s1(2) by (rule mod_add_left_eq)
  also have "currentIndex s + 1 + int k = currentIndex s + int (Suc k)" by simp
  finally have "(currentIndex s1 + int k) mod ?n = (currentIndex s + int (Suc k)) mod ?n" .
  with s1 s' show ?case by simp
qed

text \<open>
  C6. For a carousel with N \<ge> 1 slides and a current index in [0, N), calling
  \<^verbatim>\<open>next()\<close> N times returns, without throwing, to a state whose current index is the
  original one.
\<close>

theorem next_cycle:
  assumes "1 \<le> length (testimonials s)"
    and "0 \<le> currentIndex s" and "currentIndex s < int (length (testimonials s))"
  shows "\<exists>s'. repeat (length (testimonials s)) next_slide s = Done s'
           \<and> currentIndex s' = currentIndex s"
proof -
  from repeat_next_slide [OF assms(2,3), of "length (testimonials s)"] obtain s' where
    "repeat (length (testimonials s)) next_slide s = Done s'"
    "currentIndex s' = (currentIndex s + int (length (testimonials s))) mod int (length (testimonials s))"
    by blast
  then show ?thesis using assms(2,3) by simp
qed

theorem next_cycle_witness:
  "repeat 3 next_slide
     (constructor\<lparr>testimonials := [False, True, False], dots := [False, True], currentIndex := 1\<rparr>)
   = Done (constructor\<lparr>testimonials := [False, True, False], dots := [False, True], currentIndex := 1\<rparr>)"
proof -
  let ?s = "constructor\<lparr>testimonials := [False, True, False], dots := [False, True], currentIndex := 1\<rparr>"
  have l: "length (testimonials ?s) = 3" by simp
  have "\<exists>s'. repeat (length (testimonials ?s)) next_slide ?s = Done s' \<and> currentIndex s' = currentIndex ?s"
    by (rule next_cycle) (simp_all add: constructor_def)
  then have "\<exists>s'. repeat 3 next_slide ?s = Done s'" unfolding l by blast
  moreover have "state_of (repeat 3 next_slide ?s) = ?s"
    by (simp add: numeral_3_eq_3 next_slide_def show_slide_def js_rem_def constructor_def Let_def)
  ultimately show ?thesis by auto
qed

text \<open>
  C7. For N \<ge> 1 and a current index in [0, N): \<^verbatim>\<open>prev()\<close> followed by \<^verbatim>\<open>next()\<close>, and
  \<^verbatim>\<open>next()\<close> followed by \<^verbatim>\<open>prev()\<close>, both return without throwing to the original
  index; \<^verbatim>\<open>prev()\<close> takes index 0 to N - 1, because N is added before the remainder is
  taken, so that the dividend is never negative.
\<close>

theorem prev_next_inverse:
  assumes "1 \<le> length (testimonials s)"
    and "0 \<le> currentIndex s" and "currentIndex s < int (length (testimonials s))"
  shows "(\<exists>s'. andThen (prev_slide s) next_slide = Done s' \<and> currentIndex s' = currentIndex s)
       \<and> (\<exists>s'. andThen (next_slide s) prev_slide = Done s' \<and> currentIndex s' = currentIndex s)
       \<and> (\<exists>s'. prev_slide s = Done s'
             \<and> currentIndex s' = (if currentIndex s = 0 then int (length (testimonials s)) - 1
                                  else currentIndex s - 1))
       \<and> 0 \<le> currentIndex s - 1 + int (length (testimonials s))"
proof -
  let ?n = "int (length (testimonials s))"
  let ?c = "currentIndex s"
  have n: "0 < ?n" using assms by linarith
  from prev_slide_step [OF assms(2,3)] obtain p where
    p: "prev_slide s = Done p" "currentIndex p = (?c - 1) mod ?n"
      "length (testimonials p) = length (testimonials s)"
    by blast
  from next_slide_step [OF assms(2,3)] obtain q where
    q: "next_slide s = Done q" "currentIndex q = (?c + 1) mod ?n"
      "length (testimonials q) = length (testimonials s)"
    by blast
  have pb: "0 \<le> currentIndex p" "currentIndex p < int (length (testimonials p))"
    using p n by simp_all
  have qb: "0 \<le> currentIndex q" "currentIndex q < int (length (testimonials q))"
    using q n by simp_all
  from next_slide_step [OF pb] obtain p' where
    p': "next_slide p = Done p'" "currentIndex p' = (currentIndex p + 1) mod ?n"
    using p(3) by auto
  from prev_slide_step [OF qb] obtain q' where
    q': "prev_slide q = Done q'" "currentIndex q' = (currentIndex q - 1) mod ?n"
    using q(3) by auto
  have "((?c - 1) mod ?n + 1) mod ?n = (?c - 1 + 1) mod ?n"
    by (rule mod_add_left_eq)
  then have 1: "currentIndex p' = ?c" using p' p(2) assms(2,3) by simp
  have "((?c + 1) mod ?n - 1) mod ?n = (?c + 1 - 1) mod ?n"
    by (rule mod_diff_left_eq)
  then have 2: "currentIndex q' = ?c" using q' q(2) assms(2,3) by simp
  have 3: "(?c - 1) mod ?n = (if ?c = 0 then ?n - 1 else ?c - 1)"
  proof (cases "?c = 0")
    case True
    have "(- 1) mod ?n = ?n - 1" using n by (simp add: zmod_minus1)
    then show ?thesis using True by simp
  next
    case False
    then show ?thesis using assms(2,3) by simp
  qed
  have 4: "0 \<le> ?c - 1 + ?n" using assms(2) n by linarith
  show ?thesis using p(1) p' q(1) q' 1 2 3 4 p(2) by simp
qed

theorem prev_next_inverse_witness:
  "andThen (prev_slide (constructor\<lparr>testimonials := [True, False, False]\<rparr>)) next_slide
     = Done (constructor\<lparr>testimonials := [True, False, False]\<rparr>)
   \<and> currentIndex (state_of (prev_slide (constructor\<lparr>testimonials := [True, False, False]\<rparr>))) = 2"
proof -
  let ?s = "constructor\<lparr>testimonials := [True, False, False]\<rparr>"
  have "(\<exists>s'. andThen (prev_slide ?s) next_slide = Done s' \<and> currentIndex s' = currentIndex ?s)
      \<and> (\<exists>s'. andThen (next_slide ?s) prev_slide = Done s' \<and> currentIndex s' = currentIndex ?s)
      \<and> (\<exists>s'. prev_slide ?s = Done s'
            \<and> currentIndex s' = (if currentIndex ?s = 0 then int (length (testimonials ?s)) - 1
                                 else currentIndex ?s - 1))
      \<and> 0 \<le> currentIndex ?s - 1 + int (length (testimonials ?s))"
    by (rule prev_next_inverse) (simp_all add: constructor_def)
  then have a: "\<exists>s'. andThen (prev_slide ?s) next_slide = Done s'"
    and b: "\<exists>s'. prev_slide ?s = Done s' \<and> currentIndex s' = 2"
    by (auto simp: constructor_def)
  have "state_of (andThen (prev_slide ?s) next_slide) = ?s"
    by (simp add: prev_slide_def next_slide_def show_slide_def js_rem_def constructor_def Let_def)
  with a b show ?thesis by auto
qed

section \<open>Out-of-range indices and the empty carousel\<close>

text \<open>
  On an empty carousel \<^verbatim>\<open>next()\<close> computes \<^verbatim>\<open>1 % 0\<close>, which is \<^verbatim>\<open>NaN\<close>; the guard
  of \<^verbatim>\<open>show\<close> lets it through and the method throws. The state below is the one
  \<^verbatim>\<open>init\<close> leaves when the document has no testimonial and no dot.
\<close>

theorem next_on_empty_throws:
  "next_slide (state_of (init [] [] constructor))
     = Thrown TypeError (state_of (init [] [] constructor))"
  by (simp add: init_def constructor_def next_slide_def show_slide_def js_rem_def)

text \<open>
  C3 (amended). \<^verbatim>\<open>show(index)\<close> with an integer index outside [0, N) returns the state
  unchanged and does not throw; with N = 0 that is every integer index. On a document
  without testimonials \<^verbatim>\<open>init\<close> returns before it registers a listener or schedules a
  timer, so afterwards no event and no timer callback changes the state or throws.
\<close>

theorem show_out_of_range_noop:
  "(i < 0 \<or> int (length (testimonials s)) \<le> i \<longrightarrow> show_slide (Num i) s = Done s)
   \<and> (length (testimonials s) = 0 \<longrightarrow> show_slide (Num i) s = Done s)
   \<and> init [] ds constructor = Done (constructor\<lparr>dots := ds\<rparr>)
   \<and> dispatch ev (constructor\<lparr>dots := ds\<rparr>) = Done (constructor\<lparr>dots := ds\<rparr>)"
proof -
  have a: "i < 0 \<or> int (length (testimonials s)) \<le> i \<longrightarrow> show_slide (Num i) s = Done s"
    by (simp add: show_slide_def)
  have b: "length (testimonials s) = 0 \<longrightarrow> show_slide (Num i) s = Done s"
    by (auto simp: show_slide_def)
  have c: "init [] ds constructor = Done (constructor\<lparr>dots := ds\<rparr>)"
    by (simp add: init_def constructor_def)
  have d: "dispatch ev (constructor\<lparr>dots := ds\<rparr>) = Done (constructor\<lparr>dots := ds\<rparr>)"
    by (cases ev) (simp_all add: dispatch_def constructor_def)
  from a b c d show ?thesis by blast
qed

theorem show_out_of_range_noop_witness:
  "show_slide (Num 3) (constructor\<lparr>testimonials := [False, True, False], currentIndex := 1\<rparr>)
     = Done (constructor\<lparr>testimonials := [False, True, False], currentIndex := 1\<rparr>)
   \<and> show_slide (Num 0) (constructor\<lparr>dots := [True]\<rparr>) = Done (constructor\<lparr>dots := [True]\<rparr>)
   \<and> dispatch NextClick (state_of (init [] [True] constructor))
       = Done (constructor\<lparr>dots := [True]\<rparr>)"
proof -
  let ?s = "constructor\<lparr>testimonials := [False, True, False], currentIndex := 1\<rparr>"
  let ?e = "constructor\<lparr>dots := [True]\<rparr>"
  have "show_slide (Num 3) ?s = Done ?s"
    using show_out_of_range_noop [of 3 ?s "[]" NextClick] by (simp add: constructor_def)
  moreover have "show_slide (Num 0) ?e = Done ?e"
    using show_out_of_range_noop [of 0 ?e "[]" NextClick] by (simp add: constructor_def)
  moreover have "dispatch NextClick (state_of (init [] [True] constructor)) = Done ?e"
    using show_out_of_range_noop [of 0 ?e "[True]" NextClick] by simp
  ultimately show ?thesis by blast
qed

section \<open>Autoplay timer\<close>

lemma one_timer_constructor: "one_timer constructor"
  by (simp add: one_timer_def constructor_def)

lemma one_timer_stopAutoplay:
  "one_timer s \<Longrightarrow> one_timer (stopAutoplay s) \<and> interval (stopAutoplay s) = None"
  by (auto simp: one_timer_def stopAutoplay_def clearInterval_def split: option.splits)

lemma one_timer_startAutoplay:
  "one_timer s \<Longrightarrow> one_timer (startAutoplay s)
     \<and> active (timers (startAutoplay s)) = [Suc (issued (timers s))]"
  by (auto simp: one_timer_def startAutoplay_def stopAutoplay_def clearInterval_def
      setInterval_def Let_def split: option.splits)

lemma stopAutoplay_idem: "stopAutoplay (stopAutoplay s) = stopAutoplay s"
  by (simp add: stopAutoplay_def split: option.splits)

lemma show_slide_timers:
  "interval (state_of (show_slide i s)) = interval s \<and> timers (state_of (show_slide i s)) = timers s"
  by (cases i) (simp_all add: show_slide_def Let_def)

lemma one_timer_show_slide: "one_timer s \<Longrightarrow> one_timer (state_of (show_slide i s))"
  by (simp add: one_timer_def show_slide_timers split: option.splits)

lemma one_timer_setTimeout: "one_timer s \<Longrightarrow> one_timer (s\<lparr>timers := setTimeout (timers s)\<rparr>)"
  by (simp add: one_timer_def setTimeout_def split: option.splits)

lemma one_timer_andThen:
  assumes "one_timer (state_of r)" and "\<And>x. one_timer x \<Longrightarrow> one_timer (state_of (f x))"
  shows "one_timer (state_of (andThen r f))"
  using assms by (cases r) simp_all

lemma one_timer_handler: "one_timer s \<Longrightarrow> one_timer (state_of (handler ev s))"
proof (cases ev)
  case TimeoutFired
  assume "one_timer s"
  then have "one_timer (s\<lparr>timers := (timers s)\<lparr>pending := pending (timers s) - 1\<rparr>\<rparr>)"
    by (simp add: one_timer_def split: option.splits)
  then show ?thesis using TimeoutFired by (simp add: one_timer_startAutoplay)
qed (auto simp: next_slide_def prev_slide_def resumeLater_def one_timer_stopAutoplay
      one_timer_startAutoplay one_timer_show_slide one_timer_setTimeout
      intro!: one_timer_andThen)

lemma dispatch_cases: "dispatch ev s = handler ev s \<or> dispatch ev s = Done s"
  by (cases ev) (simp_all add: dispatch_def)

lemma one_timer_dispatch: "one_timer s \<Longrightarrow> one_timer (state_of (dispatch ev s))"
  using dispatch_cases [of ev s] one_timer_handler [of s ev] by auto

lemma one_timer_init: "one_timer s \<Longrightarrow> one_timer (state_of (init items ds s))"
proof -
  assume s: "one_timer s"
  then have 1: "one_timer (s\<lparr>testimonials := items, dots := ds\<rparr>)"
    and 2: "one_timer (s\<lparr>testimonials := items, dots := ds, wired := True\<rparr>)"
    by (simp_all add: one_timer_def split: option.splits)
  show ?thesis
    using 1 2 by (auto simp: init_def Let_def one_timer_show_slide one_timer_setTimeout
        intro!: one_timer_andThen)
qed

lemma reachable_one_timer: "reachable s \<Longrightarrow> one_timer s"
  by (induction rule: reachable.induct)
    (simp_all add: one_timer_init one_timer_constructor one_timer_dispatch)

text \<open>
  C8. In a state where the slider owns at most one repeating timer (the state the
  constructor builds, and every state reached from it by \<^verbatim>\<open>init\<close>, the listeners and the
  timer callbacks): \<^verbatim>\<open>startAutoplay\<close> leaves exactly one scheduled timer, a fresh one,
  the timer scheduled before being cancelled; \<^verbatim>\<open>stopAutoplay\<close> leaves none; and calling
  \<^verbatim>\<open>stopAutoplay\<close> twice gives the state that calling it once gives.
\<close>

theorem autoplay_single_timer:
  assumes "one_timer s"
  shows "one_timer (startAutoplay s)
       \<and> active (timers (startAutoplay s)) = [Suc (issued (timers s))]
       \<and> interval (startAutoplay s) = Some (Suc (issued (timers s)))
       \<and> set (active (timers s)) \<inter> set (active (timers (startAutoplay s))) = {}
       \<and> startAutoplay (stopAutoplay s) = startAutoplay s
       \<and> one_timer (stopAutoplay s)
       \<and> active (timers (stopAutoplay s)) = []
       \<and> interval (stopAutoplay s) = None
       \<and> stopAutoplay (stopAutoplay s) = stopAutoplay s"
proof -
  have 1: "one_timer (startAutoplay s)"
    and 2: "active (timers (startAutoplay s)) = [Suc (issued (timers s))]"
    using one_timer_startAutoplay [OF assms] by simp_all
  have 3: "interval (startAutoplay s) = Some (Suc (issued (timers s)))"
    using assms
    by (auto simp: one_timer_def startAutoplay_def stopAutoplay_def clearInterval_def
        setInterval_def Let_def split: option.splits)
  have 4: "set (active (timers s)) \<inter> set (active (timers (startAutoplay s))) = {}"
    unfolding 2 using assms by (auto simp: one_timer_def split: option.splits)
  have 5: "startAutoplay (stopAutoplay s) = startAutoplay s"
    by (simp add: startAutoplay_def stopAutoplay_idem)
  have 6: "one_timer (stopAutoplay s)" and 8: "interval (stopAutoplay s) = None"
    using one_timer_stopAutoplay [OF assms] by simp_all
  have 7: "active (timers (stopAutoplay s)) = []"
    using 6 8 by (simp add: one_timer_def)
  from 1 2 3 4 5 6 7 8 stopAutoplay_idem show ?thesis by blast
qed

theorem autoplay_single_timer_witness:
  "active (timers (startAutoplay (startAutoplay constructor))) = [2]
   \<and> active (timers (stopAutoplay (startAutoplay constructor))) = []"
proof -
  have o: "one_timer (startAutoplay constructor)"
    using one_timer_startAutoplay [OF one_timer_constructor] by simp
  have i: "issued (timers (startAutoplay constructor)) = 1"
    by (simp add: startAutoplay_def stopAutoplay_def setInterval_def constructor_def)
  from autoplay_single_timer [OF o]
  have "active (timers (startAutoplay (startAutoplay constructor)))
          = [Suc (issued (timers (startAutoplay constructor)))]"
    and "active (timers (stopAutoplay (startAutoplay constructor))) = []"
    by blast+
  then show ?thesis by (simp add: i)
qed

section \<open>Field validation\<close>

lemma digit_anywhere:
  "test_anywhere digitRegex s = (\<exists>c \<in> set s. c \<in> set ''0123456789'')"
  by (induction s) (simp_all add: digitRegex_def)

theorem name_length_message_overwritten:
  "length (trim (el_value short_numeric_name)) < 2
   \<and> test_anywhere digitRegex (trim (el_value short_numeric_name))
   \<and> fieldError (snd (validateField short_numeric_name))
       = Some ''Name should not contain numbers''"
  by (simp add: short_numeric_name_def validateField_def trim_def js_space_def digitRegex_def
      showFieldError_def clearFieldError_def Let_def)

text \<open>
  C1 (amended). For a field of type text named \<^verbatim>\<open>name\<close> with a non-empty trimmed value,
  one message at most is displayed: the numeric-content message whenever the value
  contains a digit (also when the value is shorter than 2, the later check overwriting the
  message of the length check), the length message when the value is shorter than 2 and
  has no digit, and none otherwise.
\<close>

theorem name_checks_last_wins:
  assumes "el_type f = ''text''" and "el_name f = ''name''" and "trim (el_value f) \<noteq> []"
  shows "validateField f =
           (if test_anywhere digitRegex (trim (el_value f))
            then (False, showFieldError (clearFieldError f) ''Name should not contain numbers'')
            else if length (trim (el_value f)) < 2
            then (False, showFieldError (clearFieldError f) ''Name must be at least 2 characters'')
            else (True, clearFieldError f))"
  using assms by (simp add: validateField_def Let_def)

theorem name_checks_last_wins_witness:
  "validateField (short_numeric_name\<lparr>el_value := ''J''\<rparr>)
     = (False, short_numeric_name\<lparr>el_value := ''J'', borderColor := ''#ef4444'',
                 fieldError := Some ''Name must be at least 2 characters''\<rparr>)
   \<and> validateField (short_numeric_name\<lparr>el_value := ''Jo3''\<rparr>)
     = (False, short_numeric_name\<lparr>el_value := ''Jo3'', borderColor := ''#ef4444'',
                 fieldError := Some ''Name should not contain numbers''\<rparr>)"
proof -
  let ?a = "short_numeric_name\<lparr>el_value := ''J''\<rparr>"
  let ?b = "short_numeric_name\<lparr>el_value := ''Jo3''\<rparr>"
  have ta: "trim (el_value ?a) = ''J''" and tb: "trim (el_value ?b) = ''Jo3''"
    by (simp_all add: trim_def js_space_def)
  have ka: "el_type ?a = ''text''" "el_name ?a = ''name''" "trim (el_value ?a) \<noteq> []"
    and kb: "el_type ?b = ''text''" "el_name ?b = ''name''" "trim (el_value ?b) \<noteq> []"
    unfolding ta tb by (simp_all add: short_numeric_name_def)
  have da: "\<not> test_anywhere digitRegex ''J''" and db: "test_anywhere digitRegex ''Jo3''"
    by (simp_all add: digitRegex_def)
  have a: "validateField ?a
      = (False, showFieldError (clearFieldError ?a) ''Name must be at least 2 characters'')"
    unfolding name_checks_last_wins [OF ka] ta using da by simp
  have b: "validateField ?b
      = (False, showFieldError (clearFieldError ?b) ''Name should not contain numbers'')"
    unfolding name_checks_last_wins [OF kb] tb using db by simp
  show ?thesis
    unfolding a b by (simp add: showFieldError_def clearFieldError_def short_numeric_name_def)
qed

section \<open>Form validation\<close>

lemma validateAll_eq:
  "validateAll fs b =
     (b \<and> list_all (\<lambda>f. fst (validateField f)) (filter required fs),
      map (\<lambda>f. if required f then snd (validateField f) else f) fs)"
  by (induction fs arbitrary: b) (auto simp: Let_def split: prod.splits)

theorem optional_email_not_checked:
  "fst (validateForm [optional_email]) \<and> \<not> fst (validateField optional_email)"
  by (simp add: validateForm_def optional_email_def validateField_def trim_def js_space_def
      test_def emailRegex_def domainLabel_def alnum_def localChars_def Let_def)

text \<open>
  C2 (amended). \<^verbatim>\<open>validateForm\<close> evaluates exactly the fields that carry the
  \<^verbatim>\<open>required\<close> attribute: the form is valid if and only if \<^verbatim>\<open>validateField\<close> accepts
  each of them, and a field that is not required is neither evaluated nor changed,
  whatever its kind and value.
\<close>

theorem validateForm_required_only:
  "validateForm fs =
     (list_all (\<lambda>f. fst (validateField f)) (filter required fs),
      map (\<lambda>f. if required f then snd (validateField f) else f) fs)"
  by (simp add: validateForm_def validateAll_eq)

section \<open>Submission\<close>

lemma find_snoc:
  "find P (xs @ [x]) = (case find P xs of None \<Rightarrow> (if P x then Some x else None) | Some y \<Rightarrow> Some y)"
  by (induction xs) simp_all

lemma honeypot_appended:
  assumes "\<not> list_ex (\<lambda>f. el_tag f = Input \<and> el_name f = ''website'') (controls p)"
  shows "honeypot (addHoneypotField p) = Some hp_field"
proof -
  have "find (\<lambda>f. el_tag f = Input \<and> el_name f = ''website'') (controls p) = None"
    using assms by (simp add: find_None_iff list_ex_iff)
  then show ?thesis
    by (simp add: honeypot_def addHoneypotField_def find_snoc hp_field_def)
qed

lemma bot_path:
  assumes "honeypot p = Some h" and "el_value h \<noteq> []"
  shows "submit_listener now p
           = Done (reset (showNotification ''Message sent successfully!'' Success p))"
  using assms by (simp add: submit_listener_def)

text \<open>
  Where the appended honeypot is the only input named \<^verbatim>\<open>website\<close>, the query finds it,
  and a filled honeypot ends the attempt on the bot path: the success notification on
  display, every control reset, no request sent or prepared, \<^verbatim>\<open>lastSubmit\<close> as it was.
\<close>

lemma reserved_honeypot_bot_path:
  assumes "controls p = cs @ [h]"
    and "el_tag h = Input" and "el_name h = ''website''" and "el_value h \<noteq> []"
    and "\<not> list_ex (\<lambda>f. el_tag f = Input \<and> el_name f = ''website'') cs"
  shows "\<exists>p'. submit_listener now p = Done p'
           \<and> notification p' = Some (''Message sent successfully!'', Success)
           \<and> controls p' = map (\<lambda>f. f\<lparr>el_value := el_default f\<rparr>) (controls p)
           \<and> requests p' = requests p
           \<and> inflight p' = inflight p
           \<and> lastSubmit p' = lastSubmit p"
proof -
  have "find (\<lambda>f. el_tag f = Input \<and> el_name f = ''website'') cs = None"
    using assms(5) by (simp add: find_None_iff list_ex_iff)
  then have "honeypot p = Some h"
    using assms(1,2,3) by (simp add: honeypot_def find_snoc)
  from bot_path [OF this assms(4)] show ?thesis
    by (simp add: reset_def showNotification_def)
qed

text \<open>
  C4. Every attempt with a filled honeypot is to end on the bot path, and the comment at
  the check says so (\<^verbatim>\<open>Honeypot check - if filled, it's a bot\<close>). The listener run on
  \<open>author_website_page\<close> at time 10000 does otherwise: the last control is the appended
  honeypot and it is filled, but the query returns the author's empty input, which comes
  first; the form is validated, the message is sent, \<^verbatim>\<open>lastSubmit\<close> goes from 0 to
  10000, no control is reset, the button shows the busy state and no success notification
  appears.
\<close>

theorem filled_honeypot_unnoticed:
  "last (controls author_website_page) = hp_field\<lparr>el_value := ''http://spam.example''\<rparr>
   \<and> honeypot author_website_page = Some (hd (controls author_website_page))
   \<and> el_value (hd (controls author_website_page)) = []
   \<and> requests (state_of (submit_listener 10000 author_website_page)) = [[(''message'', ''hi'')]]
   \<and> lastSubmit author_website_page = 0
   \<and> lastSubmit (state_of (submit_listener 10000 author_website_page)) = 10000
   \<and> notification (state_of (submit_listener 10000 author_website_page)) = None
   \<and> map el_value (controls (state_of (submit_listener 10000 author_website_page)))
       = ['''', ''hi'', ''http://spam.example'']
   \<and> submitButton (state_of (submit_listener 10000 author_website_page))
       = Some \<lparr>textContent = '' Sending...'', spinner = True, disabled = True,
                opacity = ''0.7''\<rparr>"
  by (simp add: author_website_page_def hp_field_def submit_listener_def honeypot_def
      validateForm_def validateField_def trim_def js_space_def clearFieldError_def
      submitContactForm_def FORM_SUBMIT_COOLDOWN_def entries_def Let_def)

lemma lastSubmit_resolve: "lastSubmit (resolve r t q) = lastSubmit q"
  by (cases r) (simp_all add: resolve_def finally_cleanup_def showNotification_def reset_def)

text \<open>
  C5. An attempt that passes the honeypot check and the validation, and for which
  \<^verbatim>\<open>now - lastSubmit\<close> is below \<^verbatim>\<open>minDelay\<close>, ends with the rate-limit notification on
  display, no request sent and \<^verbatim>\<open>lastSubmit\<close> unchanged. \<^verbatim>\<open>submitContactForm\<close> assigns
  \<^verbatim>\<open>lastSubmit\<close> exactly when the cooldown check passes, and the answer to the request,
  whichever it is, leaves it alone.
\<close>

theorem rate_limit:
  "(\<not> (case honeypot p of None \<Rightarrow> False | Some h \<Rightarrow> el_value h \<noteq> [])
      \<and> fst (validateForm (controls p)) \<and> now - lastSubmit p < minDelay p
    \<longrightarrow> (\<exists>p'. submit_listener now p = Done p'
           \<and> notification p' = Some (''Please wait before submitting again'', Error)
           \<and> requests p' = requests p \<and> inflight p' = inflight p
           \<and> lastSubmit p' = lastSubmit p))
   \<and> lastSubmit (state_of (submitContactForm formData now p))
       = (if now - lastSubmit p < minDelay p then lastSubmit p else now)
   \<and> lastSubmit (respond r (state_of (submitContactForm formData now p)))
       = (if now - lastSubmit p < minDelay p then lastSubmit p else now)"
proof -
  have a: "lastSubmit (state_of (submitContactForm formData now p))
           = (if now - lastSubmit p < minDelay p then lastSubmit p else now)"
    by (simp add: submitContactForm_def showNotification_def Let_def split: option.splits)
  have b: "lastSubmit (respond r q) = lastSubmit q" for q
    by (simp add: respond_def lastSubmit_resolve split: list.splits)
  have c: "\<not> (case honeypot p of None \<Rightarrow> False | Some h \<Rightarrow> el_value h \<noteq> [])
          \<and> fst (validateForm (controls p)) \<and> now - lastSubmit p < minDelay p
          \<longrightarrow> (\<exists>p'. submit_listener now p = Done p'
                 \<and> notification p' = Some (''Please wait before submitting again'', Error)
                 \<and> requests p' = requests p \<and> inflight p' = inflight p
                 \<and> lastSubmit p' = lastSubmit p)"
    by (auto simp: submit_listener_def submitContactForm_def showNotification_def Let_def
        split: prod.splits)
  show ?thesis using a b c by simp
qed

lemma email_accepted: "test emailRegex ''ann@example.com''"
  by code_simp

lemma contact_page_valid: "fst (validateForm (controls contact_page))"
  by (simp add: validateForm_def contact_page_def addHoneypotField_def hp_field_def
      validateField_def trim_def js_space_def email_accepted digitRegex_def Let_def)

lemma contact_page_honeypot: "honeypot contact_page = Some hp_field"
  unfolding contact_page_def by (rule honeypot_appended) simp

theorem rate_limit_witness:
  "notification (state_of (submit_listener 12000 (contact_page\<lparr>lastSubmit := 10000\<rparr>)))
     = Some (''Please wait before submitting again'', Error)
   \<and> requests (state_of (submit_listener 12000 (contact_page\<lparr>lastSubmit := 10000\<rparr>))) = []
   \<and> lastSubmit (state_of (submit_listener 12000 (contact_page\<lparr>lastSubmit := 10000\<rparr>))) = 10000
   \<and> lastSubmit (state_of (submitContactForm [] 15000 (contact_page\<lparr>lastSubmit := 10000\<rparr>)))
       = 15000"
proof -
  let ?p = "contact_page\<lparr>lastSubmit := 10000\<rparr>"
  have h: "\<not> (case honeypot ?p of None \<Rightarrow> False | Some h \<Rightarrow> el_value h \<noteq> [])"
    using contact_page_honeypot by (simp add: honeypot_def hp_field_def)
  have v: "fst (validateForm (controls ?p))"
    using contact_page_valid by simp
  have d: "minDelay ?p = 5000" "lastSubmit ?p = 10000" "requests ?p = []"
    by (simp_all add: contact_page_def addHoneypotField_def FORM_SUBMIT_COOLDOWN_def)
  have t: "(12000::int) - lastSubmit ?p < minDelay ?p" unfolding d by simp
  from rate_limit [of ?p 12000 "[]" HttpOk] h v t obtain p' where
    "submit_listener 12000 ?p = Done p'"
    "notification p' = Some (''Please wait before submitting again'', Error)"
    "requests p' = requests ?p" "lastSubmit p' = lastSubmit ?p"
    by blast
  moreover have "lastSubmit (state_of (submitContactForm [] 15000 ?p)) = 15000"
    using rate_limit [of ?p 15000 "[]" HttpOk] unfolding d by simp
  ultimately show ?thesis unfolding d by simp
qed


text \<open>
  The cleanup removes the error elements; the border colour of a field is not assigned.
\<close>

lemma borderColor_resolve:
  "map borderColor (controls (resolve r t q)) = map borderColor (controls q)"
  by (cases r)
    (simp_all add: resolve_def finally_cleanup_def showNotification_def reset_def comp_def)




section \<open>The name of the honeypot field\<close>

lemma collect_keys:
  "''website'' \<notin> fst ` set acc \<Longrightarrow> ''website'' \<notin> fst ` set (collect es acc)"
proof (induction es arbitrary: acc)
  case Nil
  then show ?case by simp
next
  case (Cons e es)
  obtain k v where e: "e = (k, v)" by (cases e)
  show ?case
  proof (cases "k = ''website''")
    case True
    then show ?thesis using Cons e by simp
  next
    case False
    have "fst ` set (AList.update k (sanitizeHTML (trim v)) acc) = insert k (fst ` set acc)"
      by (simp add: dom_update)
    then have "''website'' \<notin> fst ` set (AList.update k (sanitizeHTML (trim v)) acc)"
      using False Cons.prems by auto
    then show ?thesis using Cons.IH e False by simp
  qed
qed

lemma listener_requests:
  "requests (state_of (submit_listener now p)) = requests p
   \<or> (\<exists>fd. requests (state_of (submit_listener now p)) = requests p @ [fd]
           \<and> ''website'' \<notin> fst ` set fd)"
proof -
  have k: "''website'' \<notin> fst ` set (collect es [])" for es
    by (rule collect_keys) simp
  show ?thesis
    using k
    by (auto simp: submit_listener_def submitContactForm_def showNotification_def reset_def
        Let_def split: prod.splits option.splits if_splits)
qed

lemma honeypot_in_controls:
  assumes "honeypot p = Some h"
  shows "h \<in> set (controls p) \<and> el_tag h = Input \<and> el_name h = ''website''"
proof -
  from assms obtain i where "i < length (controls p)" "controls p ! i = h"
    "el_tag (controls p ! i) = Input \<and> el_name (controls p ! i) = ''website''"
    unfolding honeypot_def find_Some_iff by blast
  then show ?thesis by auto
qed

lemma validation_path:
  assumes "case honeypot p of None \<Rightarrow> True | Some h \<Rightarrow> el_value h = []"
  shows "submit_listener now p
           = (if fst (validateForm (controls p))
              then submitContactForm (collect (entries (snd (validateForm (controls p)))) [])
                     now (p\<lparr>controls := snd (validateForm (controls p))\<rparr>)
              else Done (p\<lparr>controls := snd (validateForm (controls p))\<rparr>))"
  using assms by (auto simp: submit_listener_def Let_def split: option.splits prod.splits)

text \<open>
  On \<open>textarea_website_page\<close> a control named \<^verbatim>\<open>website\<close> is filled, and the listener
  sends the message: the control is a \<^verbatim>\<open>textarea\<close>, which the selector
  \<^verbatim>\<open>input[name="website"]\<close> does not match.
\<close>

theorem filled_textarea_not_examined:
  "el_name (hd (controls textarea_website_page)) = ''website''
   \<and> el_value (hd (controls textarea_website_page)) = ''x.org''
   \<and> honeypot textarea_website_page = Some hp_field
   \<and> requests (state_of (submit_listener 10000 textarea_website_page)) = [[(''message'', ''hi'')]]
   \<and> notification (state_of (submit_listener 10000 textarea_website_page)) = None"
  by (simp add: textarea_website_page_def addHoneypotField_def hp_field_def submit_listener_def
      honeypot_def validateForm_def validateField_def trim_def js_space_def clearFieldError_def
      submitContactForm_def FORM_SUBMIT_COOLDOWN_def entries_def Let_def)

text \<open>
  C10 (amended). The name \<^verbatim>\<open>website\<close> is hard-coded in the listener's query, which
  selects input elements of that name and returns the first in document order. Since
  \<^verbatim>\<open>addHoneypotField\<close> appends the honeypot after the form's own controls, that is an
  input of the form author's when there is one, and the honeypot otherwise. When the
  value of the element returned is not empty the bot path is taken (success notification,
  form reset, nothing sent), so a visible input named \<^verbatim>\<open>website\<close> that the visitor
  fills triggers it. While no input element of that name is filled the listener goes on
  to validation, whatever a \<^verbatim>\<open>select\<close> or \<^verbatim>\<open>textarea\<close> of that name holds. And
  whatever the form holds, a request the listener sends has no key \<^verbatim>\<open>website\<close> in its
  body.
\<close>

theorem website_name_hard_coded:
  "honeypot (addHoneypotField p0)
     = (case find (\<lambda>f. el_tag f = Input \<and> el_name f = ''website'') (controls p0) of
          None \<Rightarrow> Some hp_field
        | Some a \<Rightarrow> Some a)
   \<and> (controls p = cs @ [h] \<and> el_tag h = Input \<and> el_name h = ''website''
        \<longrightarrow> honeypot p
              = (case find (\<lambda>f. el_tag f = Input \<and> el_name f = ''website'') cs of
                   None \<Rightarrow> Some h
                 | Some a \<Rightarrow> Some a))
   \<and> (honeypot p = Some a \<and> el_value a \<noteq> []
        \<longrightarrow> submit_listener now p
              = Done (reset (showNotification ''Message sent successfully!'' Success p))
            \<and> requests (state_of (submit_listener now p)) = requests p)
   \<and> (\<not> list_ex (\<lambda>f. el_tag f = Input \<and> el_name f = ''website'' \<and> el_value f \<noteq> [])
            (controls p)
        \<longrightarrow> submit_listener now p
              = (if fst (validateForm (controls p))
                 then submitContactForm (collect (entries (snd (validateForm (controls p)))) [])
                        now (p\<lparr>controls := snd (validateForm (controls p))\<rparr>)
                 else Done (p\<lparr>controls := snd (validateForm (controls p))\<rparr>)))
   \<and> (requests (state_of (submit_listener now p)) = requests p
        \<or> (\<exists>fd. requests (state_of (submit_listener now p)) = requests p @ [fd]
                \<and> ''website'' \<notin> fst ` set fd))"
proof -
  have 1: "honeypot (addHoneypotField p0)
     = (case find (\<lambda>f. el_tag f = Input \<and> el_name f = ''website'') (controls p0) of
          None \<Rightarrow> Some hp_field
        | Some a \<Rightarrow> Some a)"
    by (simp add: honeypot_def addHoneypotField_def find_snoc hp_field_def split: option.splits)
  have 2: "honeypot p
              = (case find (\<lambda>f. el_tag f = Input \<and> el_name f = ''website'') cs of
                   None \<Rightarrow> Some h
                 | Some a \<Rightarrow> Some a)"
    if "controls p = cs @ [h] \<and> el_tag h = Input \<and> el_name h = ''website''"
    using that by (simp add: honeypot_def find_snoc split: option.splits)
  have 3: "submit_listener now p
              = Done (reset (showNotification ''Message sent successfully!'' Success p))
            \<and> requests (state_of (submit_listener now p)) = requests p"
    if "honeypot p = Some a \<and> el_value a \<noteq> []"
  proof -
    from that have "submit_listener now p
        = Done (reset (showNotification ''Message sent successfully!'' Success p))"
      by (simp add: bot_path)
    then show ?thesis by (simp add: reset_def showNotification_def)
  qed
  have 4: "submit_listener now p
              = (if fst (validateForm (controls p))
                 then submitContactForm (collect (entries (snd (validateForm (controls p)))) [])
                        now (p\<lparr>controls := snd (validateForm (controls p))\<rparr>)
                 else Done (p\<lparr>controls := snd (validateForm (controls p))\<rparr>))"
    if n: "\<not> list_ex (\<lambda>f. el_tag f = Input \<and> el_name f = ''website'' \<and> el_value f \<noteq> [])
            (controls p)"
  proof (rule validation_path)
    show "case honeypot p of None \<Rightarrow> True | Some h \<Rightarrow> el_value h = []"
    proof (cases "honeypot p")
      case None
      then show ?thesis by simp
    next
      case (Some x)
      from honeypot_in_controls [OF Some] n have "el_value x = []"
        by (auto simp: list_ex_iff)
      with Some show ?thesis by simp
    qed
  qed
  from 1 2 3 4 listener_requests [of now p] show ?thesis by blast
qed

theorem website_name_hard_coded_witness:
  "honeypot author_filled_page = Some (hd (controls author_filled_page))
   \<and> el_value (hd (controls author_filled_page)) = ''x.org''
   \<and> notification (state_of (submit_listener 10000 author_filled_page))
       = Some (''Message sent successfully!'', Success)
   \<and> requests (state_of (submit_listener 10000 author_filled_page)) = []
   \<and> requests (state_of (submit_listener 10000 textarea_website_page)) = [[(''message'', ''hi'')]]"
proof -
  let ?a = "hd (controls author_filled_page)"
  let ?P = "\<lambda>f. el_tag f = Input \<and> el_name f = ''website''"
  have s: "author_filled_page = addHoneypotField (author_filled_page\<lparr>controls := butlast (controls author_filled_page)\<rparr>)"
    by (simp add: author_filled_page_def addHoneypotField_def)
  have f: "find ?P (controls (author_filled_page\<lparr>controls := butlast (controls author_filled_page)\<rparr>)) = Some ?a"
    by (simp add: author_filled_page_def addHoneypotField_def)
  have h: "honeypot author_filled_page = Some ?a"
    using website_name_hard_coded
      [of "author_filled_page\<lparr>controls := butlast (controls author_filled_page)\<rparr>"
          author_filled_page "[]" ?a ?a 10000]
    unfolding f s [symmetric] by simp
  have v: "el_value ?a = ''x.org''"
    by (simp add: author_filled_page_def addHoneypotField_def)
  have w: "el_value ?a \<noteq> []" unfolding v by simp
  from website_name_hard_coded [of author_filled_page author_filled_page "[]" ?a ?a 10000] h w
  have b: "submit_listener 10000 author_filled_page
      = Done (reset (showNotification ''Message sent successfully!'' Success author_filled_page))"
    by blast
  from website_name_hard_coded [of author_filled_page author_filled_page "[]" ?a ?a 10000] h w
  have r: "requests (state_of (submit_listener 10000 author_filled_page))
      = requests author_filled_page"
    by blast
  have n: "\<not> list_ex (\<lambda>f. el_tag f = Input \<and> el_name f = ''website'' \<and> el_value f \<noteq> [])
            (controls textarea_website_page)"
    by (simp add: textarea_website_page_def addHoneypotField_def hp_field_def)
  from website_name_hard_coded [of textarea_website_page textarea_website_page "[]" ?a ?a 10000] n
  have "submit_listener 10000 textarea_website_page
      = (if fst (validateForm (controls textarea_website_page))
         then submitContactForm
                (collect (entries (snd (validateForm (controls textarea_website_page)))) [])
                10000
                (textarea_website_page\<lparr>controls := snd (validateForm (controls textarea_website_page))\<rparr>)
         else Done (textarea_website_page\<lparr>controls := snd (validateForm (controls textarea_website_page))\<rparr>))"
    by blast
  then have t: "requests (state_of (submit_listener 10000 textarea_website_page))
      = [[(''message'', ''hi'')]]"
    by (simp add: textarea_website_page_def addHoneypotField_def hp_field_def
      validateForm_def validateField_def trim_def js_space_def clearFieldError_def
      submitContactForm_def FORM_SUBMIT_COOLDOWN_def entries_def Let_def)
  have "notification (state_of (submit_listener 10000 author_filled_page))
       = Some (''Message sent successfully!'', Success)"
    unfolding b by (simp add: reset_def showNotification_def)
  moreover have "requests author_filled_page = []"
    by (simp add: author_filled_page_def addHoneypotField_def)
  ultimately show ?thesis using h v r t by simp
qed

end
